theory Spec2Isabelle
  imports Main "HOL-Library.Sublist"
begin

section \<open>The generation session of the Re-imaginator\<close>

text \<open>
  The application is one React component, \<^verbatim>\<open>App\<close>, in two builds:
  \<^verbatim>\<open>src/index.tsx\<close> and \<^verbatim>\<open>src/unnamed/part_000\<close>, which adds an aspect-ratio
  selector. The handlers of the two builds are the same text but for three places
  (the prompt sent, the history item's \<^verbatim>\<open>aspectRatio\<close>, the reset in
  \<^verbatim>\<open>clearInputs\<close>), so one embedding is written, with the build as a parameter.

  The component's state is a record. Each handler is a function from the state at the
  render that created the handler to the state after the handler's updates. The browser
  and the service are outside the code: what they return is a parameter of the handler
  (the clock, the files chosen, how the awaited service call settles, how the fetch of an
  image reference settles), and what the code does to them is recorded in three fields of
  the state (\<open>blobStore\<close>, \<open>blobCount\<close>, \<open>sent\<close>). An asynchronous handler is taken
  from its call to its last update in one step: no other event is handled in between.
\<close>

subsection \<open>Data\<close>

datatype Build = IndexTsx | AspectRatioBuild

text \<open>\<^verbatim>\<open>type AspectRatio = '1:1' | '16:9' | '9:16'\<close>, and the text a template literal
  makes of it.\<close>

datatype AspectRatio = R_1_1 | R_16_9 | R_9_16

fun aspectRatioText :: "AspectRatio \<Rightarrow> string" where
  "aspectRatioText R_1_1 = ''1:1''"
| "aspectRatioText R_16_9 = ''16:9''"
| "aspectRatioText R_9_16 = ''9:16''"

text \<open>A \<^verbatim>\<open>File\<close>: its name, its declared MIME type, and its bytes in the base64 text
  that \<^verbatim>\<open>FileReader.readAsDataURL\<close> gives after the comma. A \<^verbatim>\<open>Blob\<close> has no name.\<close>

record File =
  fileName :: string
  fileType :: string
  fileBase64 :: string

record Blob =
  blobType :: string
  blobBase64 :: string

text \<open>The parts of a request and of a response, and the response down to the parts
  the code reads: \<^verbatim>\<open>response.candidates?.[0]?.content?.parts\<close>.\<close>

record InlineData =
  inlineBytes :: string
  inlineMimeType :: string

record Part =
  inlineData :: "InlineData option"
  partText :: "string option"

record Content =
  parts :: "Part list option"

record Candidate =
  content :: "Content option"

record Response =
  candidates :: "Candidate list option"

datatype Modality = IMAGE | TEXT

record Request =
  model :: string
  contents :: "Part list"
  responseModalities :: "Modality list"

text \<open>What a \<^verbatim>\<open>catch (err)\<close> receives: an instance of \<^verbatim>\<open>Error\<close> with its message, or
  any other value, given by its text (a thrown string, say). The \<^verbatim>\<open>try\<close> block of
  \<^verbatim>\<open>handleSubmit\<close> ends in one of three ways: something throws before
  \<^verbatim>\<open>generateContent\<close> is called (the constructor of the client, the reading of the
  files); the call is made and rejects; the call is made and resolves with a response.\<close>

datatype Thrown = ErrorObject string | NonError string

datatype Outcome = ThrewBeforeCall Thrown | Rejected Thrown | Resolved Response

record HistoryItem =
  item_id :: string
  item_baseImagePreviews :: "string list"
  item_prompt :: string
  item_generatedImage :: string
  item_seed :: string
  item_aspectRatio :: "AspectRatio option"

datatype Tab = Generator | History

datatype Theme = Light | Dark

text \<open>The \<^verbatim>\<open>useState\<close> cells of \<^verbatim>\<open>App\<close>, in the order of the source, then the
  browser: the blob URL store (the object URLs created and not revoked), the number of
  object URLs created so far, and the requests handed to \<^verbatim>\<open>generateContent\<close>.
  \<open>aspectRatio\<close> exists in the aspect-ratio build only; in the other build nothing
  reads or writes it. A history item's \<open>item_aspectRatio\<close> is \<open>None\<close> there.\<close>

record App =
  baseImages :: "File list"
  baseImagePreviews :: "string list"
  prompt :: string
  seed :: string
  aspectRatio :: AspectRatio
  generatedImage :: string
  isLoading :: bool
  error :: string
  isDragging :: bool
  history :: "HistoryItem list"
  activeTab :: Tab
  theme :: Theme
  selectedHistoryItem :: "HistoryItem option"
  blobStore :: "string list"
  blobCount :: nat
  sent :: "Request list"

definition initial :: App where
  "initial = \<lparr> baseImages = [], baseImagePreviews = [], prompt = '''', seed = '''',
     aspectRatio = R_1_1, generatedImage = '''', isLoading = False, error = '''',
     isDragging = False, history = [], activeTab = Generator, theme = Dark,
     selectedHistoryItem = None, blobStore = [], blobCount = 0, sent = [] \<rparr>"

subsection \<open>JavaScript's library\<close>

text \<open>A number in a template literal: its decimal digits.\<close>

definition digitChar :: "nat \<Rightarrow> char" where
  "digitChar d = char_of (48 + d)"

fun digits :: "nat \<Rightarrow> string" where
  "digits n = (if n < 10 then [digitChar n] else digits (n div 10) @ [digitChar (n mod 10)])"

declare digits.simps [simp del]

text \<open>The number that a string of decimal digits denotes.\<close>

definition digitsValue :: "string \<Rightarrow> nat" where
  "digitsValue cs = foldl (\<lambda>a c. 10 * a + (of_char c - 48)) 0 cs"

text \<open>\<^verbatim>\<open>xs.slice(0, e)\<close>: a negative end counts from the end of the array.\<close>

definition slice0 :: "'a list \<Rightarrow> int \<Rightarrow> 'a list" where
  "slice0 xs e = take (nat (if e < 0 then int (length xs) + e else e)) xs"

text \<open>\<^verbatim>\<open>xs.filter((_, index) => index !== i)\<close>.\<close>

definition filterIndexNot :: "int \<Rightarrow> 'a list \<Rightarrow> 'a list" where
  "filterIndexNot i xs = map snd (filter (\<lambda>(index, _). int index \<noteq> i) (enumerate 0 xs))"

text \<open>\<^verbatim>\<open>xs[i]\<close>: \<^verbatim>\<open>undefined\<close> out of range, which a string parameter of a browser
  function reads as the text \<^verbatim>\<open>undefined\<close>.\<close>

definition jsIndex :: "'a list \<Rightarrow> int \<Rightarrow> 'a option" where
  "jsIndex xs i = (if 0 \<le> i \<and> i < int (length xs) then Some (xs ! nat i) else None)"

definition jsString :: "string option \<Rightarrow> string" where
  "jsString v = (case v of None \<Rightarrow> ''undefined'' | Some s \<Rightarrow> s)"

subsection \<open>The browser's object URLs\<close>

text \<open>\<^verbatim>\<open>URL.createObjectURL\<close> gives a URL of scheme \<^verbatim>\<open>blob:\<close> that it has never given
  before and enters it in the blob URL store; the rest of the URL, an origin and a UUID
  in a browser, is the count here. \<^verbatim>\<open>URL.revokeObjectURL\<close> removes a URL from the store
  and does nothing for a URL of another scheme.\<close>

definition blobUrl :: "nat \<Rightarrow> string" where
  "blobUrl n = ''blob:'' @ digits n"

definition isBlobUrl :: "string \<Rightarrow> bool" where
  "isBlobUrl u = prefix ''blob:'' u"

definition isDataUrl :: "string \<Rightarrow> bool" where
  "isDataUrl u = prefix ''data:'' u"

definition createObjectURL :: "File \<Rightarrow> App \<Rightarrow> string \<times> App" where
  "createObjectURL file s =
     (blobUrl (blobCount s),
      s\<lparr>blobStore := blobStore s @ [blobUrl (blobCount s)], blobCount := Suc (blobCount s)\<rparr>)"

definition revokeObjectURL :: "string \<Rightarrow> App \<Rightarrow> App" where
  "revokeObjectURL u s =
     (if isBlobUrl u then s\<lparr>blobStore := removeAll u (blobStore s)\<rparr> else s)"

text \<open>\<^verbatim>\<open>newFiles.map(file => URL.createObjectURL(file))\<close> and
  \<^verbatim>\<open>urls.forEach(url => URL.revokeObjectURL(url))\<close>.\<close>

fun createObjectURLs :: "File list \<Rightarrow> App \<Rightarrow> string list \<times> App" where
  "createObjectURLs [] s = ([], s)"
| "createObjectURLs (file # files) s =
     (let (u, s1) = createObjectURL file s; (us, s2) = createObjectURLs files s1
      in (u # us, s2))"

fun revokeObjectURLs :: "string list \<Rightarrow> App \<Rightarrow> App" where
  "revokeObjectURLs [] s = s"
| "revokeObjectURLs (u # us) s = revokeObjectURLs us (revokeObjectURL u s)"

subsection \<open>The handlers\<close>

text \<open>\<^verbatim>\<open>processFiles(files)\<close>, the body of \<^verbatim>\<open>handleImageChange\<close> and of
  \<^verbatim>\<open>handleDrop\<close>.\<close>

definition processFiles :: "File list option \<Rightarrow> App \<Rightarrow> App" where
  "processFiles files s =
     (case files of
        None \<Rightarrow> s
      | Some fs \<Rightarrow>
          let newFiles = slice0 fs (3 - int (length (baseImages s))) in
          if length newFiles = 0 then s
          else
            let (newPreviews, s1) = createObjectURLs newFiles s in
            s1\<lparr>baseImages := baseImages s1 @ newFiles,
               baseImagePreviews := baseImagePreviews s1 @ newPreviews,
               generatedImage := '''',
               error := ''''\<rparr>)"

definition handleRemoveImage :: "int \<Rightarrow> App \<Rightarrow> App" where
  "handleRemoveImage indexToRemove s =
     (let prev = baseImagePreviews s;
          newPreviews = filterIndexNot indexToRemove prev;
          s1 = revokeObjectURL (jsString (jsIndex prev indexToRemove)) s
      in s1\<lparr>baseImages := filterIndexNot indexToRemove (baseImages s1),
            baseImagePreviews := newPreviews\<rparr>)"

definition handleDragEvents :: "bool \<Rightarrow> App \<Rightarrow> App" where
  "handleDragEvents isOver s = s\<lparr>isDragging := isOver\<rparr>"

definition handleDrop :: "File list option \<Rightarrow> App \<Rightarrow> App" where
  "handleDrop files s = processFiles files (handleDragEvents False s)"

text \<open>\<^verbatim>\<open>handleImprovise(imageUrl)\<close>. \<open>fetched\<close> is how
  \<^verbatim>\<open>(await fetch(imageUrl)).blob()\<close> settles: \<open>None\<close> when it throws.\<close>

definition handleImprovise :: "string \<Rightarrow> nat \<Rightarrow> Blob option \<Rightarrow> App \<Rightarrow> App" where
  "handleImprovise imageUrl now fetched s =
     (if imageUrl = '''' then s
      else
        case fetched of
          None \<Rightarrow> s\<lparr>error := ''Could not use the generated image as a new base.''\<rparr>
        | Some blob \<Rightarrow>
            let newFile = \<lparr> fileName = ''improvised-'' @ digits now @ ''.png'',
                            fileType = blobType blob, fileBase64 = blobBase64 blob \<rparr>;
                s1 = revokeObjectURLs (baseImagePreviews s) s
            in s1\<lparr>baseImages := [newFile],
                  baseImagePreviews := [imageUrl],
                  generatedImage := '''',
                  error := '''',
                  selectedHistoryItem :=
                    (if selectedHistoryItem s1 \<noteq> None then None else selectedHistoryItem s1),
                  activeTab := Generator\<rparr>)"

text \<open>\<^verbatim>\<open>handleClearHistory\<close>; \<open>confirmed\<close> is what \<^verbatim>\<open>window.confirm\<close> returns.\<close>

definition handleClearHistory :: "bool \<Rightarrow> App \<Rightarrow> App" where
  "handleClearHistory confirmed s = (if confirmed then s\<lparr>history := []\<rparr> else s)"

text \<open>\<^verbatim>\<open>clearInputs\<close>: the last line is of the aspect-ratio build only.\<close>

definition clearInputs :: "Build \<Rightarrow> App \<Rightarrow> App" where
  "clearInputs b s =
     (let s1 = revokeObjectURLs (baseImagePreviews s) s;
          s2 = s1\<lparr>baseImages := [], baseImagePreviews := [], prompt := '''', seed := ''''\<rparr>
      in case b of IndexTsx \<Rightarrow> s2 | AspectRatioBuild \<Rightarrow> s2\<lparr>aspectRatio := R_1_1\<rparr>)"

text \<open>The request of \<^verbatim>\<open>handleSubmit\<close>: one part for each base image, then the text.\<close>

definition fileToGenerativePart :: "File \<Rightarrow> Part" where
  "fileToGenerativePart file =
     \<lparr> inlineData = Some \<lparr> inlineBytes = fileBase64 file, inlineMimeType = fileType file \<rparr>,
       partText = None \<rparr>"

definition finalPrompt :: "Build \<Rightarrow> App \<Rightarrow> string" where
  "finalPrompt b s =
     (case b of
        IndexTsx \<Rightarrow> prompt s
      | AspectRatioBuild \<Rightarrow>
          prompt s @ [CHR 0x0A, CHR 0x0A] @
          ''**IMPORTANT**: The output image must have a strict aspect ratio of exactly '' @
          aspectRatioText (aspectRatio s) @ ''. This is a critical requirement.'')"

definition generateContentRequest :: "Build \<Rightarrow> App \<Rightarrow> Request" where
  "generateContentRequest b s =
     (let imageParts = map fileToGenerativePart (baseImages s);
          textPart = \<lparr> inlineData = None, partText = Some (finalPrompt b s) \<rparr>
      in \<lparr> model = ''gemini-2.5-flash-image-preview'',
           contents = imageParts @ [textPart],
           responseModalities = [IMAGE, TEXT] \<rparr>)"

text \<open>\<^verbatim>\<open>response.candidates?.[0]?.content?.parts || []\<close>, and the loop over it, which
  stops at the first part with \<^verbatim>\<open>inlineData\<close>.\<close>

definition responseParts :: "Response \<Rightarrow> Part list" where
  "responseParts r =
     (case candidates r of
        None \<Rightarrow> []
      | Some cs \<Rightarrow>
          (case jsIndex cs 0 of
             None \<Rightarrow> []
           | Some c \<Rightarrow>
               (case content c of
                  None \<Rightarrow> []
                | Some ct \<Rightarrow> (case parts ct of None \<Rightarrow> [] | Some ps \<Rightarrow> ps))))"

fun firstInlineData :: "Part list \<Rightarrow> InlineData option" where
  "firstInlineData [] = None"
| "firstInlineData (part # rest) =
     (case inlineData part of Some d \<Rightarrow> Some d | None \<Rightarrow> firstInlineData rest)"

definition errorMessage :: "Thrown \<Rightarrow> string" where
  "errorMessage err =
     (case err of ErrorObject message \<Rightarrow> message | NonError _ \<Rightarrow> ''An unexpected error occurred.'')"

text \<open>\<^verbatim>\<open>handleSubmit\<close>. \<open>now\<close> is \<^verbatim>\<open>Date.now()\<close>; \<open>outcome\<close> is how the
  \<^verbatim>\<open>try\<close> block ends. \<open>loading\<close> is the state on entering the \<^verbatim>\<open>try\<close> block, after
  the three updates that follow the validation; \<open>submitting\<close> is the state at the call
  of \<^verbatim>\<open>generateContent\<close>, where the request is handed over: a throw before the call
  sends nothing. The values the handler reads (\<^verbatim>\<open>baseImages\<close>, \<^verbatim>\<open>baseImagePreviews\<close>,
  \<^verbatim>\<open>prompt\<close>, \<^verbatim>\<open>seed\<close>, \<^verbatim>\<open>aspectRatio\<close>) are those of \<open>s\<close>.\<close>

definition loading :: "App \<Rightarrow> App" where
  "loading s = s\<lparr>isLoading := True, error := '''', generatedImage := ''''\<rparr>"

definition submitting :: "Build \<Rightarrow> App \<Rightarrow> App" where
  "submitting b s =
     s\<lparr>isLoading := True, error := '''', generatedImage := '''',
       sent := sent s @ [generateContentRequest b s]\<rparr>"

definition newHistoryItem :: "Build \<Rightarrow> nat \<Rightarrow> string \<Rightarrow> App \<Rightarrow> HistoryItem" where
  "newHistoryItem b now imageUrl s =
     \<lparr> item_id = ''history-'' @ digits now,
       item_baseImagePreviews = (if length (baseImages s) > 0 then baseImagePreviews s else []),
       item_prompt = prompt s,
       item_generatedImage = imageUrl,
       item_seed = seed s,
       item_aspectRatio = (case b of IndexTsx \<Rightarrow> None | AspectRatioBuild \<Rightarrow> Some (aspectRatio s)) \<rparr>"

definition handleSubmit :: "Build \<Rightarrow> nat \<Rightarrow> Outcome \<Rightarrow> App \<Rightarrow> App" where
  "handleSubmit b now outcome s =
     (if length (baseImages s) = 0 \<or> prompt s = '''' then
        s\<lparr>error := ''Please upload at least one image and provide a prompt.''\<rparr>
      else
        let s1 = submitting b s;
            s2 =
              (case outcome of
                 ThrewBeforeCall err \<Rightarrow>
                   (loading s)\<lparr>error := ''Error: '' @ errorMessage err @
                                        ''. Please check the console for more details.''\<rparr>
               | Rejected err \<Rightarrow>
                   s1\<lparr>error := ''Error: '' @ errorMessage err @
                                ''. Please check the console for more details.''\<rparr>
               | Resolved response \<Rightarrow>
                   (case firstInlineData (responseParts response) of
                      Some d \<Rightarrow>
                        let imageUrl = ''data:'' @ inlineMimeType d @ '';base64,'' @ inlineBytes d;
                            s3 = s1\<lparr>generatedImage := imageUrl\<rparr>;
                            s4 = s3\<lparr>history := newHistoryItem b now imageUrl s # slice0 (history s3) 19\<rparr>
                        in clearInputs b s4
                    | None \<Rightarrow>
                        s1\<lparr>error := ''The AI didn't return an image. Try a different prompt.''\<rparr>))
        in s2\<lparr>isLoading := False\<rparr>)"

subsection \<open>The events of the page\<close>

text \<open>What the rendered page can call, with what the browser supplies at each call. The
  improvise buttons pass the image shown (\<^verbatim>\<open>generatedImage\<close>, or that of the history
  item in the modal); a history tile passes its own item; \<^verbatim>\<open>setAspectRatio\<close> exists in
  the aspect-ratio build only.\<close>

datatype Event =
    ImageChange "File list option"
  | DragOver
  | DragLeave
  | Drop "File list option"
  | RemoveImageClick int
  | PromptChange string
  | SeedChange string
  | AspectRatioClick AspectRatio
  | FormSubmit nat Outcome
  | ImproviseClick nat "Blob option"
  | ModalImproviseClick nat "Blob option"
  | HistoryItemClick nat
  | ModalClose
  | ClearHistoryClick bool
  | TabClick Tab
  | ThemeToggle

definition toggleTheme :: "App \<Rightarrow> App" where
  "toggleTheme s = s\<lparr>theme := (if theme s = Light then Dark else Light)\<rparr>"

fun fire :: "Build \<Rightarrow> Event \<Rightarrow> App \<Rightarrow> App" where
  "fire b (ImageChange files) s = processFiles files s"
| "fire b DragOver s = handleDragEvents True s"
| "fire b DragLeave s = handleDragEvents False s"
| "fire b (Drop files) s = handleDrop files s"
| "fire b (RemoveImageClick i) s = handleRemoveImage i s"
| "fire b (PromptChange v) s = s\<lparr>prompt := v\<rparr>"
| "fire b (SeedChange v) s = s\<lparr>seed := v\<rparr>"
| "fire b (AspectRatioClick r) s =
     (case b of IndexTsx \<Rightarrow> s | AspectRatioBuild \<Rightarrow> s\<lparr>aspectRatio := r\<rparr>)"
| "fire b (FormSubmit now outcome) s = handleSubmit b now outcome s"
| "fire b (ImproviseClick now fetched) s = handleImprovise (generatedImage s) now fetched s"
| "fire b (ModalImproviseClick now fetched) s =
     (case selectedHistoryItem s of
        None \<Rightarrow> s
      | Some item \<Rightarrow> handleImprovise (item_generatedImage item) now fetched s)"
| "fire b (HistoryItemClick i) s =
     (if i < length (history s) then s\<lparr>selectedHistoryItem := Some (history s ! i)\<rparr> else s)"
| "fire b ModalClose s = s\<lparr>selectedHistoryItem := None\<rparr>"
| "fire b (ClearHistoryClick confirmed) s = handleClearHistory confirmed s"
| "fire b (TabClick t) s = s\<lparr>activeTab := t\<rparr>"
| "fire b ThemeToggle s = toggleTheme s"

definition run :: "Build \<Rightarrow> Event list \<Rightarrow> App \<Rightarrow> App" where
  "run b es s = foldl (\<lambda>s e. fire b e s) s es"

inductive reachable :: "Build \<Rightarrow> App \<Rightarrow> bool" for b :: Build where
  start: "reachable b initial"
| step: "reachable b s \<Longrightarrow> reachable b (fire b e s)"

text \<open>\<open>reachable\<close> holds of the states of the runs in which every handler has made
  its last update before the next event is handled. The page also takes a drop, a change
  or a click while a request or a fetch is pending; such runs are not among these.

  What holds of every state of these runs: the two draft lists go together and hold at
  most three entries, the history at most twenty; the previews are pairwise different,
  each a data URL or an object URL already created; the blob URL store holds exactly the
  object URLs among the previews; every image reference shown is empty or a data URL; no
  generated image is shown while the draft holds a base image; no request is
  outstanding. The last fact and the one on the blob URL store are facts of these runs
  only: an image dropped while a request is pending keeps its object URL in the store
  when the answer clears the draft.\<close>

definition sessionInvariant :: "App \<Rightarrow> bool" where
  "sessionInvariant s =
     (length (baseImages s) = length (baseImagePreviews s) \<and>
      length (baseImages s) \<le> 3 \<and>
      length (history s) \<le> 20 \<and>
      distinct (baseImagePreviews s) \<and>
      (\<forall>p \<in> set (baseImagePreviews s). isDataUrl p \<or> p \<in> blobUrl ` {..<blobCount s}) \<and>
      distinct (blobStore s) \<and>
      set (blobStore s) = {p \<in> set (baseImagePreviews s). isBlobUrl p} \<and>
      (generatedImage s = '''' \<or> isDataUrl (generatedImage s)) \<and>
      (baseImages s = [] \<or> generatedImage s = '''') \<and>
      (\<forall>item \<in> set (history s). isDataUrl (item_generatedImage item)) \<and>
      (\<forall>item. selectedHistoryItem s = Some item \<longrightarrow> isDataUrl (item_generatedImage item)) \<and>
      \<not> isLoading s)"

subsection \<open>Example sessions\<close>

text \<open>Two files, two answers of the service, and sessions run from the initial state.\<close>

definition photo :: File where
  "photo = \<lparr> fileName = ''photo.png'', fileType = ''image/png'', fileBase64 = ''QUJD'' \<rparr>"

definition sketch :: File where
  "sketch = \<lparr> fileName = ''sketch.jpg'', fileType = ''image/jpeg'', fileBase64 = ''REVG'' \<rparr>"

definition pngAnswer :: Response where
  "pngAnswer = \<lparr> candidates = Some [\<lparr> content = Some \<lparr> parts = Some
     [\<lparr> inlineData = None, partText = Some ''Here is your image.'' \<rparr>,
      \<lparr> inlineData = Some \<lparr> inlineBytes = ''X'', inlineMimeType = ''image/png'' \<rparr>,
        partText = None \<rparr>] \<rparr> \<rparr>] \<rparr>"

definition textOnly :: Response where
  "textOnly = \<lparr> candidates = Some [\<lparr> content = Some \<lparr> parts = Some
     [\<lparr> inlineData = None, partText = Some ''I cannot draw that.'' \<rparr>] \<rparr> \<rparr>] \<rparr>"

definition castleDraft :: App where
  "castleDraft =
     run IndexTsx [ImageChange (Some [photo, sketch]), PromptChange ''add a castle''] initial"

definition sunsetDraft :: App where
  "sunsetDraft = run IndexTsx [ImageChange (Some [photo]), PromptChange ''sunset''] initial"

definition wideDraft :: App where
  "wideDraft =
     run AspectRatioBuild
       [ImageChange (Some [photo]), PromptChange ''sunset'', AspectRatioClick R_16_9] initial"

definition threeImages :: App where
  "threeImages = run IndexTsx [ImageChange (Some [photo, sketch]), Drop (Some [photo])] initial"

definition tallDraft :: App where
  "tallDraft = fire AspectRatioBuild (AspectRatioClick R_9_16) wideDraft"

definition squareDraft :: App where
  "squareDraft = fire AspectRatioBuild (AspectRatioClick R_1_1) wideDraft"





definition twentyDone :: App where
  "twentyDone =
     run IndexTsx
       (concat (map (\<lambda>n. [ImageChange (Some [photo]), PromptChange ''sunset'',
                             FormSubmit n (Resolved pngAnswer)]) [1..<21]) @
        [ImageChange (Some [sketch]), PromptChange ''one more''])
       initial"

section \<open>Properties of the library and of the handlers\<close>

lemma of_digitChar: "d < 10 \<Longrightarrow> of_char (digitChar d) = 48 + d"
  unfolding digitChar_def by (simp add: of_char_of)

lemma digitsValue_digits: "digitsValue (digits n) = n"
proof (induction n rule: digits.induct)
  case (1 n)
  show ?case
  proof (cases "n < 10")
    case True
    then show ?thesis by (simp add: digits.simps[of n] digitsValue_def of_digitChar)
  next
    case False
    with 1 have "digitsValue (digits (n div 10)) = n div 10" by simp
    moreover have "of_char (digitChar (n mod 10)) = 48 + n mod 10" by (simp add: of_digitChar)
    ultimately show ?thesis using False
      by (simp add: digits.simps[of n] digitsValue_def)
  qed
qed

lemma digits_inj: "digits m = digits n \<Longrightarrow> m = n"
  by (metis digitsValue_digits)

lemma blobUrl_inj: "blobUrl m = blobUrl n \<longleftrightarrow> m = n"
  by (auto simp: blobUrl_def dest: digits_inj)

lemma isBlobUrl_blobUrl: "isBlobUrl (blobUrl n)"
  by (simp add: isBlobUrl_def blobUrl_def)

lemma blob_not_data: "isBlobUrl u \<Longrightarrow> \<not> isDataUrl u"
  by (auto simp: isBlobUrl_def isDataUrl_def prefix_def)

lemma createObjectURLs_eq:
  "createObjectURLs fs s =
     (map blobUrl [blobCount s ..< blobCount s + length fs],
      s\<lparr>blobStore := blobStore s @ map blobUrl [blobCount s ..< blobCount s + length fs],
        blobCount := blobCount s + length fs\<rparr>)"
proof (induction fs arbitrary: s)
  case Nil
  show ?case by simp
next
  case (Cons f fs)
  have "[blobCount s ..< blobCount s + length (f # fs)] =
        blobCount s # [Suc (blobCount s) ..< Suc (blobCount s) + length fs]"
    by (simp add: upt_conv_Cons del: upt_Suc)
  then show ?case
    by (simp add: Cons.IH createObjectURL_def del: upt_Suc)
qed

lemma revokeObjectURLs_eq:
  "revokeObjectURLs us s =
     s\<lparr>blobStore := filter (\<lambda>u. \<not> (isBlobUrl u \<and> u \<in> set us)) (blobStore s)\<rparr>"
proof (induction us arbitrary: s)
  case Nil
  show ?case by simp
next
  case (Cons u us)
  have "filter (\<lambda>x. \<not> (isBlobUrl x \<and> x \<in> set us)) (removeAll u (blobStore s)) =
        filter (\<lambda>x. \<not> (isBlobUrl x \<and> x \<in> set (u # us))) (blobStore s)" if "isBlobUrl u"
    using that by (induction "blobStore s" arbitrary: s) (auto simp: removeAll_filter_not_eq intro: filter_cong)
  moreover have "filter (\<lambda>x. \<not> (isBlobUrl x \<and> x \<in> set us)) (blobStore s) =
        filter (\<lambda>x. \<not> (isBlobUrl x \<and> x \<in> set (u # us))) (blobStore s)" if "\<not> isBlobUrl u"
    using that by (auto intro: filter_cong)
  ultimately show ?case
    by (simp add: Cons.IH revokeObjectURL_def)
qed

lemma filter_enumerate_index:
  "map snd (filter (\<lambda>(index, _). int index \<noteq> i) (enumerate n xs)) =
     (if int n \<le> i \<and> i < int n + int (length xs)
      then take (nat i - n) xs @ drop (Suc (nat i - n)) xs else xs)"
proof (induction xs arbitrary: n)
  case Nil
  show ?case by simp
next
  case (Cons x xs)
  show ?case
  proof (cases "int n = i")
    case True
    then have "map snd (filter (\<lambda>(index, _). int index \<noteq> i) (enumerate (Suc n) xs)) = xs"
      by (simp add: Cons.IH)
    with True show ?thesis by auto
  next
    case False
    then have "nat i - n = Suc (nat i - Suc n)" if "int n \<le> i"
      using that by linarith
    with False show ?thesis
      by (auto simp: Cons.IH)
  qed
qed

lemma filterIndexNot_inside:
  "0 \<le> i \<Longrightarrow> i < int (length xs) \<Longrightarrow>
   filterIndexNot i xs = take (nat i) xs @ drop (Suc (nat i)) xs"
  by (simp add: filterIndexNot_def filter_enumerate_index)

lemma filterIndexNot_outside:
  "i < 0 \<or> int (length xs) \<le> i \<Longrightarrow> filterIndexNot i xs = xs"
  by (auto simp: filterIndexNot_def filter_enumerate_index)

lemma slice0_take: "0 \<le> e \<Longrightarrow> slice0 xs e = take (nat e) xs"
  by (simp add: slice0_def)

lemma processFiles_None: "processFiles None s = s"
  by (simp add: processFiles_def)

lemma processFiles_Some:
  assumes "length (baseImages s) \<le> 3"
  shows "processFiles (Some fs) s =
     (if take (3 - length (baseImages s)) fs = [] then s
      else s\<lparr>blobStore := blobStore s @
                 map blobUrl [blobCount s ..< blobCount s + length (take (3 - length (baseImages s)) fs)],
             blobCount := blobCount s + length (take (3 - length (baseImages s)) fs),
             baseImages := baseImages s @ take (3 - length (baseImages s)) fs,
             baseImagePreviews := baseImagePreviews s @
                 map blobUrl [blobCount s ..< blobCount s + length (take (3 - length (baseImages s)) fs)],
             generatedImage := '''',
             error := ''''\<rparr>)"
proof -
  have "nat (3 - int (length (baseImages s))) = 3 - length (baseImages s)"
    using assms by linarith
  then have "slice0 fs (3 - int (length (baseImages s))) = take (3 - length (baseImages s)) fs"
    using assms by (simp add: slice0_take)
  then show ?thesis
    by (simp add: processFiles_def createObjectURLs_eq Let_def)
qed

lemma blobUrl_below_count: "blobUrl n \<in> blobUrl ` {..<blobCount s} \<longleftrightarrow> n < blobCount s"
  by (auto simp: blobUrl_inj)

lemma distinct_blobUrls: "distinct (map blobUrl [m..<n])"
  by (simp add: distinct_map inj_on_def blobUrl_inj)

lemma fresh_blobUrl:
  assumes "\<forall>p \<in> set ps. isDataUrl p \<or> p \<in> blobUrl ` {..<blobCount s}" and "blobCount s \<le> n"
  shows "blobUrl n \<notin> set ps"
proof
  assume "blobUrl n \<in> set ps"
  with assms(1) have "isDataUrl (blobUrl n) \<or> blobUrl n \<in> blobUrl ` {..<blobCount s}" by blast
  with assms(2) show False
    using blob_not_data[OF isBlobUrl_blobUrl, of n] by (auto simp: blobUrl_inj)
qed

lemma inv_processFiles:
  assumes "sessionInvariant s"
  shows "sessionInvariant (processFiles files s)"
proof (cases files)
  case None
  with assms show ?thesis by (simp add: processFiles_None)
next
  case (Some fs)
  define k where "k = length (take (3 - length (baseImages s)) fs)"
  define us where "us = map blobUrl [blobCount s ..< blobCount s + k]"
  from assms have len: "length (baseImages s) \<le> 3"
    and eq: "length (baseImages s) = length (baseImagePreviews s)"
    and dist: "distinct (baseImagePreviews s)"
    and orig: "\<forall>p \<in> set (baseImagePreviews s). isDataUrl p \<or> p \<in> blobUrl ` {..<blobCount s}"
    and sd: "distinct (blobStore s)"
    and store: "set (blobStore s) = {p \<in> set (baseImagePreviews s). isBlobUrl p}"
    by (simp_all add: sessionInvariant_def)
  have k3: "length (baseImages s) + k \<le> 3" using len by (simp add: k_def)
  have fresh: "set us \<inter> set (baseImagePreviews s) = {}"
    using fresh_blobUrl[OF orig] by (auto simp: us_def)
  have blobs: "\<forall>u \<in> set us. isBlobUrl u" by (auto simp: us_def isBlobUrl_blobUrl)
  have dus: "distinct us" by (simp add: us_def distinct_blobUrls)
  have cr: "\<forall>u \<in> set us. u \<in> blobUrl ` {..<blobCount s + k}" by (auto simp: us_def)
  have mono: "p \<in> blobUrl ` {..<blobCount s} \<Longrightarrow> p \<in> blobUrl ` {..<blobCount s + k}" for p
    by (auto simp:)
  show ?thesis
  proof (cases "take (3 - length (baseImages s)) fs = []")
    case True
    with Some len assms show ?thesis by (simp add: processFiles_Some)
  next
    case False
    have "processFiles files s =
        s\<lparr>blobStore := blobStore s @ us, blobCount := blobCount s + k,
          baseImages := baseImages s @ take (3 - length (baseImages s)) fs,
          baseImagePreviews := baseImagePreviews s @ us,
          generatedImage := '''', error := ''''\<rparr>"
      using Some len False by (simp add: processFiles_Some k_def us_def)
    moreover have "length us = k" by (simp add: us_def)
    ultimately show ?thesis
      using assms k3 fresh blobs dus cr mono store sd eq orig
      unfolding sessionInvariant_def
      by (auto simp: k_def)
  qed
qed

lemma set_without_nth:
  assumes "distinct xs" and "n < length xs"
  shows "set (take n xs @ drop (Suc n) xs) = set xs - {xs ! n}"
proof -
  have split: "xs = take n xs @ xs ! n # drop (Suc n) xs"
    using assms(2) by (rule id_take_nth_drop)
  then have "distinct (take n xs @ xs ! n # drop (Suc n) xs)"
    using assms(1) by simp
  then have "xs ! n \<notin> set (take n xs @ drop (Suc n) xs)" by auto
  moreover have "set xs = insert (xs ! n) (set (take n xs @ drop (Suc n) xs))"
    by (subst split) auto
  ultimately show ?thesis by auto
qed

lemma distinct_without_nth:
  "distinct xs \<Longrightarrow> distinct (take n xs @ drop (Suc n) xs)"
  by (simp add: set_take_disj_set_drop_if_distinct)

lemma handleRemoveImage_inside:
  assumes "0 \<le> i" and "i < int (length (baseImagePreviews s))"
    and "length (baseImages s) = length (baseImagePreviews s)"
  shows "handleRemoveImage i s =
     (revokeObjectURL (baseImagePreviews s ! nat i) s)
       \<lparr>baseImages := take (nat i) (baseImages s) @ drop (Suc (nat i)) (baseImages s),
        baseImagePreviews :=
          take (nat i) (baseImagePreviews s) @ drop (Suc (nat i)) (baseImagePreviews s)\<rparr>"
  using assms
  by (simp add: handleRemoveImage_def Let_def filterIndexNot_inside jsIndex_def jsString_def
        revokeObjectURL_def)

lemma handleRemoveImage_outside:
  assumes "i < 0 \<or> int (length (baseImagePreviews s)) \<le> i"
    and "length (baseImages s) = length (baseImagePreviews s)"
  shows "handleRemoveImage i s = s"
proof -
  have "\<not> isBlobUrl ''undefined''" by (simp add: isBlobUrl_def)
  moreover have "jsString (jsIndex (baseImagePreviews s) i) = ''undefined''"
    using assms(1) by (auto simp: jsIndex_def jsString_def)
  ultimately show ?thesis
    using assms by (simp add: handleRemoveImage_def Let_def filterIndexNot_outside revokeObjectURL_def)
qed

lemma inv_handleRemoveImage:
  assumes "sessionInvariant s"
  shows "sessionInvariant (handleRemoveImage i s)"
proof (cases "0 \<le> i \<and> i < int (length (baseImagePreviews s))")
  case False
  then have "i < 0 \<or> int (length (baseImagePreviews s)) \<le> i" by linarith
  moreover from assms have "length (baseImages s) = length (baseImagePreviews s)"
    by (simp add: sessionInvariant_def)
  ultimately have "handleRemoveImage i s = s" by (rule handleRemoveImage_outside)
  with assms show ?thesis by simp
next
  case True
  define n where "n = nat i"
  define p where "p = baseImagePreviews s ! n"
  define s' where "s' = handleRemoveImage i s"
  from assms have eq: "length (baseImages s) = length (baseImagePreviews s)"
    and le: "length (baseImages s) \<le> 3"
    and dist: "distinct (baseImagePreviews s)"
    and orig: "\<forall>p \<in> set (baseImagePreviews s). isDataUrl p \<or> p \<in> blobUrl ` {..<blobCount s}"
    and sd: "distinct (blobStore s)"
    and store: "set (blobStore s) = {p \<in> set (baseImagePreviews s). isBlobUrl p}"
    by (simp_all add: sessionInvariant_def)
  from True have n: "n < length (baseImagePreviews s)" unfolding n_def by linarith
  have rest: "set (take n (baseImagePreviews s) @ drop (Suc n) (baseImagePreviews s)) =
      set (baseImagePreviews s) - {p}"
    unfolding p_def using dist n by (rule set_without_nth)
  have st: "s' =
     (revokeObjectURL p s)
       \<lparr>baseImages := take n (baseImages s) @ drop (Suc n) (baseImages s),
        baseImagePreviews := take n (baseImagePreviews s) @ drop (Suc n) (baseImagePreviews s)\<rparr>"
    using True eq by (simp add: s'_def handleRemoveImage_inside n_def p_def)
  have pin: "p \<in> set (baseImagePreviews s)" using n by (simp add: p_def)
  have f1: "baseImages s' = take n (baseImages s) @ drop (Suc n) (baseImages s)"
    and f2: "baseImagePreviews s' = take n (baseImagePreviews s) @ drop (Suc n) (baseImagePreviews s)"
    and f3: "blobStore s' = (if isBlobUrl p then removeAll p (blobStore s) else blobStore s)"
    and f4: "blobCount s' = blobCount s" "history s' = history s"
      "generatedImage s' = generatedImage s" "selectedHistoryItem s' = selectedHistoryItem s"
      "isLoading s' = isLoading s"
    by (simp_all add: st revokeObjectURL_def)
  have c1: "length (baseImages s') = length (baseImagePreviews s')"
    using eq by (simp add: f1 f2)
  have c2: "length (baseImages s') \<le> 3" using le by (simp add: f1)
  have c4: "distinct (baseImagePreviews s')"
    unfolding f2 using dist by (rule distinct_without_nth)
  have c5: "\<forall>q \<in> set (baseImagePreviews s'). isDataUrl q \<or> q \<in> blobUrl ` {..<blobCount s'}"
    using orig by (simp add: f2 rest f4 del: set_append)
  have c6: "distinct (blobStore s')" using sd by (simp add: f3 distinct_removeAll)
  have c7: "set (blobStore s') = {q \<in> set (baseImagePreviews s'). isBlobUrl q}"
    using store by (auto simp add: f2 f3 rest simp del: set_append)
  have c8: "baseImages s' = [] \<or> generatedImage s' = ''''"
    using assms n eq by (auto simp: sessionInvariant_def f4)
  from assms c1 c2 c4 c5 c6 c7 c8 show ?thesis
    unfolding s'_def[symmetric] sessionInvariant_def by (simp add: f4)
qed

lemma data_not_blob: "isDataUrl u \<Longrightarrow> \<not> isBlobUrl u"
  using blob_not_data by blast

lemma handleImprovise_empty: "handleImprovise [] now fetched s = s"
  by (simp add: handleImprovise_def)

lemma inv_handleImprovise:
  assumes "sessionInvariant s" and "imageUrl = '''' \<or> isDataUrl imageUrl"
  shows "sessionInvariant (handleImprovise imageUrl now fetched s)"
proof (cases "imageUrl = ''''")
  case True
  with assms show ?thesis by (simp add: handleImprovise_empty)
next
  case False
  with assms(2) have d: "isDataUrl imageUrl" by simp
  then have nb: "\<not> isBlobUrl imageUrl" by (rule data_not_blob)
  from assms(1) have store: "set (blobStore s) = {p \<in> set (baseImagePreviews s). isBlobUrl p}"
    by (simp add: sessionInvariant_def)
  then have "filter (\<lambda>u. \<not> (isBlobUrl u \<and> u \<in> set (baseImagePreviews s))) (blobStore s) = []"
    by (auto simp: filter_empty_conv)
  with assms(1) False d nb show ?thesis
    unfolding sessionInvariant_def
    by (cases fetched) (simp_all add: handleImprovise_def revokeObjectURLs_eq Let_def)
qed

lemma clearInputs_eq:
  "clearInputs b s =
     s\<lparr>blobStore := filter (\<lambda>u. \<not> (isBlobUrl u \<and> u \<in> set (baseImagePreviews s))) (blobStore s),
       baseImages := [], baseImagePreviews := [], prompt := '''', seed := '''',
       aspectRatio := (case b of IndexTsx \<Rightarrow> aspectRatio s | AspectRatioBuild \<Rightarrow> R_1_1)\<rparr>"
  by (cases b) (simp_all add: clearInputs_def revokeObjectURLs_eq Let_def)

lemma inv_handleSubmit:
  assumes "sessionInvariant s"
  shows "sessionInvariant (handleSubmit b now outcome s)"
proof (cases "length (baseImages s) = 0 \<or> prompt s = ''''")
  case True
  with assms show ?thesis
    unfolding sessionInvariant_def by (auto simp: handleSubmit_def)
next
  case False
  from assms have store: "set (blobStore s) = {p \<in> set (baseImagePreviews s). isBlobUrl p}"
    by (simp add: sessionInvariant_def)
  then have gone: "filter (\<lambda>u. \<not> (isBlobUrl u \<and> u \<in> set (baseImagePreviews s))) (blobStore s) = []"
    by (auto simp: filter_empty_conv)
  have h20: "length (slice0 (history s) 19) \<le> 19" by (simp add: slice0_def)
  have hset: "set (slice0 (history s) 19) \<subseteq> set (history s)"
    by (simp add: slice0_def set_take_subset)
  show ?thesis
  proof (cases outcome)
    case (ThrewBeforeCall err)
    with assms False show ?thesis
      unfolding sessionInvariant_def
      by (simp add: handleSubmit_def loading_def Let_def)
  next
    case (Rejected err)
    with assms False show ?thesis
      unfolding sessionInvariant_def
      by (simp add: handleSubmit_def submitting_def Let_def)
  next
    case (Resolved r)
    show ?thesis
    proof (cases "firstInlineData (responseParts r)")
      case None
      with assms False Resolved show ?thesis
        unfolding sessionInvariant_def
        by (simp add: handleSubmit_def submitting_def Let_def)
    next
      case (Some d)
      have "isDataUrl (''data:'' @ inlineMimeType d @ '';base64,'' @ inlineBytes d)"
        by (simp add: isDataUrl_def)
      with assms False Resolved Some gone h20 hset show ?thesis
        unfolding sessionInvariant_def
        by (auto simp: handleSubmit_def submitting_def Let_def clearInputs_eq newHistoryItem_def)
    qed
  qed
qed

lemma inv_fire:
  assumes "sessionInvariant s"
  shows "sessionInvariant (fire b e s)"
proof (cases e)
  case (ImageChange files)
  with assms show ?thesis by (simp add: inv_processFiles)
next
  case (Drop files)
  have "sessionInvariant (handleDragEvents False s)"
    using assms by (simp add: sessionInvariant_def handleDragEvents_def)
  with Drop show ?thesis by (simp add: handleDrop_def inv_processFiles)
next
  case (RemoveImageClick i)
  with assms show ?thesis by (simp add: inv_handleRemoveImage)
next
  case (FormSubmit now outcome)
  with assms show ?thesis by (simp add: inv_handleSubmit)
next
  case (ImproviseClick now fetched)
  from assms have "generatedImage s = '''' \<or> isDataUrl (generatedImage s)"
    by (simp add: sessionInvariant_def)
  with assms ImproviseClick show ?thesis by (simp add: inv_handleImprovise)
next
  case (ModalImproviseClick now fetched)
  show ?thesis
  proof (cases "selectedHistoryItem s")
    case None
    with assms ModalImproviseClick show ?thesis by simp
  next
    case (Some item)
    with assms have "isDataUrl (item_generatedImage item)"
      by (simp add: sessionInvariant_def)
    with assms ModalImproviseClick Some show ?thesis by (simp add: inv_handleImprovise)
  qed
next
  case (HistoryItemClick i)
  with assms show ?thesis by (auto simp: sessionInvariant_def)
next
  case (AspectRatioClick r)
  with assms show ?thesis by (cases b) (simp_all add: sessionInvariant_def)
next
  case (ClearHistoryClick c)
  with assms show ?thesis by (simp add: sessionInvariant_def handleClearHistory_def)
qed (use assms in \<open>simp_all add: sessionInvariant_def handleDragEvents_def toggleTheme_def\<close>)

lemma inv_initial: "sessionInvariant initial"
  by (simp add: sessionInvariant_def initial_def)

lemma reachable_invariant: "reachable b s \<Longrightarrow> sessionInvariant s"
  by (induction rule: reachable.induct) (simp_all add: inv_initial inv_fire)

lemma reachable_run: "reachable b s \<Longrightarrow> reachable b (run b es s)"
proof (induction es arbitrary: s)
  case Nil
  then show ?case by (simp add: run_def)
next
  case (Cons e es)
  from Cons.prems have "reachable b (fire b e s)" by (rule reachable.step)
  then have "reachable b (run b es (fire b e s))" by (rule Cons.IH)
  then show ?case by (simp add: run_def)
qed

lemma firstInlineData_first:
  "\<forall>q \<in> set before. inlineData q = None \<Longrightarrow> inlineData part = Some d \<Longrightarrow>
   firstInlineData (before @ part # rest) = Some d"
  by (induction before) simp_all

lemma firstInlineData_none:
  "\<forall>q \<in> set ps. inlineData q = None \<Longrightarrow> firstInlineData ps = None"
  by (induction ps) simp_all

lemma slice0_19: "slice0 xs 19 = take 19 xs"
  by (simp add: slice0_def)

lemma handleSubmit_invalid:
  "baseImages s = [] \<or> prompt s = '''' \<Longrightarrow>
   handleSubmit b now outcome s =
     s\<lparr>error := ''Please upload at least one image and provide a prompt.''\<rparr>"
  by (auto simp: handleSubmit_def)

lemma handleSubmit_threw:
  "baseImages s \<noteq> [] \<Longrightarrow> prompt s \<noteq> '''' \<Longrightarrow>
   handleSubmit b now (ThrewBeforeCall err) s =
     s\<lparr>generatedImage := '''',
       isLoading := False,
       error := ''Error: '' @ errorMessage err @ ''. Please check the console for more details.''\<rparr>"
  by (simp add: handleSubmit_def loading_def Let_def)

lemma handleSubmit_rejected:
  "baseImages s \<noteq> [] \<Longrightarrow> prompt s \<noteq> '''' \<Longrightarrow>
   handleSubmit b now (Rejected err) s =
     s\<lparr>generatedImage := '''',
       isLoading := False,
       error := ''Error: '' @ errorMessage err @ ''. Please check the console for more details.'',
       sent := sent s @ [generateContentRequest b s]\<rparr>"
  by (simp add: handleSubmit_def submitting_def Let_def)

lemma handleSubmit_no_image:
  "baseImages s \<noteq> [] \<Longrightarrow> prompt s \<noteq> '''' \<Longrightarrow>
   firstInlineData (responseParts r) = None \<Longrightarrow>
   handleSubmit b now (Resolved r) s =
     s\<lparr>generatedImage := '''',
       isLoading := False,
       error := ''The AI didn't return an image. Try a different prompt.'',
       sent := sent s @ [generateContentRequest b s]\<rparr>"
  by (simp add: handleSubmit_def submitting_def Let_def)

lemma handleSubmit_image:
  "baseImages s \<noteq> [] \<Longrightarrow> prompt s \<noteq> '''' \<Longrightarrow>
   firstInlineData (responseParts r) = Some d \<Longrightarrow>
   handleSubmit b now (Resolved r) s =
     s\<lparr>baseImages := [],
       baseImagePreviews := [],
       prompt := '''',
       seed := '''',
       aspectRatio := (case b of IndexTsx \<Rightarrow> aspectRatio s | AspectRatioBuild \<Rightarrow> R_1_1),
       generatedImage := ''data:'' @ inlineMimeType d @ '';base64,'' @ inlineBytes d,
       isLoading := False,
       error := '''',
       history :=
         newHistoryItem b now (''data:'' @ inlineMimeType d @ '';base64,'' @ inlineBytes d) s #
         take 19 (history s),
       blobStore := filter (\<lambda>u. \<not> (isBlobUrl u \<and> u \<in> set (baseImagePreviews s))) (blobStore s),
       sent := sent s @ [generateContentRequest b s]\<rparr>"
  by (cases b) (simp_all add: handleSubmit_def submitting_def Let_def clearInputs_eq slice0_19)

lemma reachable_processFiles_calls:
  "reachable b s \<Longrightarrow> reachable b (foldl (\<lambda>s files. processFiles files s) s calls)"
proof (induction calls arbitrary: s)
  case Nil
  then show ?case by simp
next
  case (Cons files calls)
  have "reachable b (fire b (ImageChange files) s)" using Cons.prems by (rule reachable.step)
  then have "reachable b (processFiles files s)" by simp
  then show ?case using Cons.IH by simp
qed

lemma sent_handleSubmit:
  assumes "baseImages s \<noteq> []" and "prompt s \<noteq> ''''"
  shows "sent (handleSubmit b now outcome s) =
     (case outcome of
        ThrewBeforeCall err \<Rightarrow> sent s
      | Rejected err \<Rightarrow> sent s @ [generateContentRequest b s]
      | Resolved r \<Rightarrow> sent s @ [generateContentRequest b s])"
proof (cases outcome)
  case (ThrewBeforeCall err)
  with assms show ?thesis by (simp add: handleSubmit_threw)
next
  case (Rejected err)
  with assms show ?thesis by (simp add: handleSubmit_rejected)
next
  case (Resolved r)
  with assms show ?thesis
    by (cases "firstInlineData (responseParts r)")
      (simp_all add: handleSubmit_no_image handleSubmit_image)
qed

lemma revoke_all_previews:
  assumes "sessionInvariant s"
  shows "filter (\<lambda>u. \<not> (isBlobUrl u \<and> u \<in> set (baseImagePreviews s))) (blobStore s) = []"
proof -
  from assms have "set (blobStore s) = {p \<in> set (baseImagePreviews s). isBlobUrl p}"
    by (simp add: sessionInvariant_def)
  then show ?thesis by (auto simp: filter_empty_conv)
qed

lemma no_result_beside_draft:
  "reachable b s \<Longrightarrow> baseImages s \<noteq> [] \<Longrightarrow> generatedImage s = ''''"
  using reachable_invariant [of b s] by (simp add: sessionInvariant_def)

section \<open>The properties the specification states\<close>

text \<open>
  \<^bold>\<open>C1.\<close> For every submit of a valid draft whose response has a content part with
  inline image data, the first such part having MIME type \<open>m\<close> and base64 payload
  \<open>X\<close>: the generated image is \<open>data:m;base64,X\<close>; the history gains, at its head, a
  new item with that image, the submitted prompt, the submitted seed and the previews of
  the draft; and the draft is cleared: no base images, no previews, empty prompt, empty
  seed.
\<close>

theorem submit_with_image:
  fixes s :: App and b now r m X
  defines "s' \<equiv> handleSubmit b now (Resolved r) s"
    and "url \<equiv> ''data:'' @ m @ '';base64,'' @ X"
  assumes "baseImages s \<noteq> []" and "prompt s \<noteq> ''''"
    and "responseParts r = before @ part # rest"
    and "\<forall>q \<in> set before. inlineData q = None"
    and "inlineData part = Some \<lparr> inlineBytes = X, inlineMimeType = m \<rparr>"
  shows "generatedImage s' = url \<and>
         history s' = newHistoryItem b now url s # take 19 (history s) \<and>
         item_generatedImage (history s' ! 0) = url \<and>
         item_prompt (history s' ! 0) = prompt s \<and>
         item_seed (history s' ! 0) = seed s \<and>
         item_baseImagePreviews (history s' ! 0) = baseImagePreviews s \<and>
         baseImages s' = [] \<and>
         baseImagePreviews s' = [] \<and>
         prompt s' = '''' \<and>
         seed s' = ''''"
proof -
  have "firstInlineData (responseParts r) = Some \<lparr> inlineBytes = X, inlineMimeType = m \<rparr>"
    unfolding assms(5) using assms(6,7) by (rule firstInlineData_first)
  with assms(3,4) show ?thesis
    by (simp add: s'_def url_def handleSubmit_image newHistoryItem_def)
qed

theorem submit_with_image_witness:
  "baseImages castleDraft = [photo, sketch] \<and>
   prompt castleDraft = ''add a castle'' \<and>
   seed castleDraft = '''' \<and>
   generatedImage (handleSubmit IndexTsx 1700 (Resolved pngAnswer) castleDraft) =
     ''data:image/png;base64,X'' \<and>
   map item_prompt (history (handleSubmit IndexTsx 1700 (Resolved pngAnswer) castleDraft)) =
     [''add a castle''] \<and>
   baseImages (handleSubmit IndexTsx 1700 (Resolved pngAnswer) castleDraft) = [] \<and>
   prompt (handleSubmit IndexTsx 1700 (Resolved pngAnswer) castleDraft) = ''''"
proof -
  have draft: "baseImages castleDraft = [photo, sketch]" "prompt castleDraft = ''add a castle''"
    "seed castleDraft = ''''" "history castleDraft = []"
    by code_simp+
  have valid: "baseImages castleDraft \<noteq> []" "prompt castleDraft \<noteq> ''''"
    by (simp_all add: draft)
  have answer: "responseParts pngAnswer =
      [\<lparr> inlineData = None, partText = Some ''Here is your image.'' \<rparr>] @
      \<lparr> inlineData = Some \<lparr> inlineBytes = ''X'', inlineMimeType = ''image/png'' \<rparr>,
        partText = None \<rparr> # []"
    by code_simp
  show ?thesis
    using submit_with_image [where b = IndexTsx and now = 1700, OF valid answer] draft
    by (simp add: newHistoryItem_def)
qed

text \<open>
  \<^bold>\<open>C2.\<close> In every state the page can reach the history holds at most twenty items.
  A submit of a valid draft that is answered with an image puts exactly one new item at
  the head of the history, before the first nineteen of the items that were there. When
  twenty were there, twenty are there afterwards: the new item, then the former items 0
  to 18 in their order; the former item 19 has no place in the list, and, if its id is
  not that of another item of the new list, it is not an element of it.
\<close>

theorem history_capped_newest_first:
  fixes s :: App and b now r d
  defines "s' \<equiv> handleSubmit b now (Resolved r) s"
    and "item \<equiv>
      newHistoryItem b now (''data:'' @ inlineMimeType d @ '';base64,'' @ inlineBytes d) s"
  assumes "reachable b s"
    and "baseImages s \<noteq> []" and "prompt s \<noteq> ''''"
    and "firstInlineData (responseParts r) = Some d"
  shows "length (history s) \<le> 20 \<and>
         history s' = item # take 19 (history s) \<and>
         history s' ! 0 = item \<and>
         length (history s') \<le> 20 \<and>
         (length (history s) < 20 \<longrightarrow> history s' = item # history s) \<and>
         (length (history s) = 20 \<longrightarrow>
            length (history s') = 20 \<and>
            history s' = item # butlast (history s) \<and>
            (item_id (history s ! 19) \<notin> item_id ` set (item # butlast (history s)) \<longrightarrow>
               history s ! 19 \<notin> set (history s')))"
proof -
  from assms(3) have "sessionInvariant s" by (rule reachable_invariant)
  then have le: "length (history s) \<le> 20" by (simp add: sessionInvariant_def)
  have new: "history s' = item # take 19 (history s)"
    using assms(4,5,6) by (simp add: s'_def item_def handleSubmit_image)
  have full: "take 19 (history s) = butlast (history s)" if "length (history s) = 20"
    using that by (simp add: butlast_conv_take)
  have absent: "history s ! 19 \<notin> set (item # butlast (history s))"
    if "item_id (history s ! 19) \<notin> item_id ` set (item # butlast (history s))"
    using that by blast
  from le new full absent show ?thesis by auto
qed

theorem history_capped_newest_first_witness:
  "length (history twentyDone) = 20 \<and>
   item_id (history twentyDone ! 19) = ''history-1'' \<and>
   length (history (handleSubmit IndexTsx 21 (Resolved pngAnswer) twentyDone)) = 20 \<and>
   history (handleSubmit IndexTsx 21 (Resolved pngAnswer) twentyDone) ! 0 =
     newHistoryItem IndexTsx 21 ''data:image/png;base64,X'' twentyDone \<and>
   history twentyDone ! 19 \<notin>
     set (history (handleSubmit IndexTsx 21 (Resolved pngAnswer) twentyDone))"
proof -
  have reach: "reachable IndexTsx twentyDone"
    unfolding twentyDone_def by (rule reachable_run [OF reachable.start])
  have valid: "baseImages twentyDone \<noteq> []" "prompt twentyDone \<noteq> ''''"
    by code_simp+
  have answer: "firstInlineData (responseParts pngAnswer) =
      Some \<lparr> inlineBytes = ''X'', inlineMimeType = ''image/png'' \<rparr>"
    by code_simp
  have ids: "map item_id (history twentyDone) =
      [''history-20'', ''history-19'', ''history-18'', ''history-17'', ''history-16'',
       ''history-15'', ''history-14'', ''history-13'', ''history-12'', ''history-11'',
       ''history-10'', ''history-9'', ''history-8'', ''history-7'', ''history-6'',
       ''history-5'', ''history-4'', ''history-3'', ''history-2'', ''history-1'']"
    by code_simp
  have "length (map item_id (history twentyDone)) = 20"
    unfolding ids by simp
  then have full: "length (history twentyDone) = 20" by simp
  have "map item_id (history twentyDone) ! 19 = ''history-1''"
    unfolding ids by simp
  then have oldest: "item_id (history twentyDone ! 19) = ''history-1''"
    using full by simp
  have newest: "item_id (newHistoryItem IndexTsx 21 ''data:image/png;base64,X'' twentyDone) =
      ''history-21''"
    by code_simp
  have "''history-1'' \<notin> set (butlast (map item_id (history twentyDone)))"
    unfolding ids by simp
  then have "''history-1'' \<notin> item_id ` set (butlast (history twentyDone))"
    by (simp add: map_butlast [symmetric])
  then have unique: "item_id (history twentyDone ! 19) \<notin>
      item_id ` set (newHistoryItem IndexTsx 21 ''data:image/png;base64,X'' twentyDone #
        butlast (history twentyDone))"
    by (simp add: oldest newest)
  have url: "''data:'' @ inlineMimeType \<lparr> inlineBytes = ''X'', inlineMimeType = ''image/png'' \<rparr> @
      '';base64,'' @ inlineBytes \<lparr> inlineBytes = ''X'', inlineMimeType = ''image/png'' \<rparr> =
      ''data:image/png;base64,X''"
    by simp
  note submit = history_capped_newest_first [where now = 21, OF reach valid answer,
      unfolded url]
  from submit full unique oldest show ?thesis
    by blast
qed

text \<open>
  \<^bold>\<open>C3.\<close> For every draft with no base image or with an empty prompt, and however
  the service would answer, \<open>handleSubmit\<close> only sets the error message to
  ``Please upload at least one image and provide a prompt.'': the state after it is the
  state before it with that message, so nothing else changes and no request is sent.
\<close>

theorem submit_validation:
  assumes "length (baseImages s) = 0 \<or> prompt s = ''''"
  shows "handleSubmit b now outcome s =
           s\<lparr>error := ''Please upload at least one image and provide a prompt.''\<rparr> \<and>
         error (handleSubmit b now outcome s) =
           ''Please upload at least one image and provide a prompt.'' \<and>
         sent (handleSubmit b now outcome s) = sent s"
proof -
  from assms have "baseImages s = [] \<or> prompt s = ''''" by simp
  then have "handleSubmit b now outcome s =
      s\<lparr>error := ''Please upload at least one image and provide a prompt.''\<rparr>"
    by (rule handleSubmit_invalid)
  then show ?thesis by simp
qed

theorem submit_validation_witness:
  "length (baseImages initial) = 0 \<and>
   error (handleSubmit IndexTsx 7 (Rejected (ErrorObject ''offline'')) initial) =
     ''Please upload at least one image and provide a prompt.'' \<and>
   sent (handleSubmit IndexTsx 7 (Rejected (ErrorObject ''offline'')) initial) = []"
proof -
  have empty: "length (baseImages initial) = 0 \<or> prompt initial = ''''"
    by (simp add: initial_def)
  show ?thesis
    using submit_validation [OF empty, of IndexTsx 7 "Rejected (ErrorObject ''offline'')"]
    by (simp add: initial_def)
qed

text \<open>
  \<^bold>\<open>C4.\<close> For every submit of a valid draft whose response has no content part with
  inline image data, the error message is exactly ``The AI didn't return an image. Try a
  different prompt.'', the draft (base images, previews and their object URLs, prompt,
  seed, aspect ratio) is as before the call, and so is the history.
\<close>

theorem submit_without_image:
  assumes "baseImages s \<noteq> []" and "prompt s \<noteq> ''''"
    and "\<forall>part \<in> set (responseParts r). inlineData part = None"
  shows "error (handleSubmit b now (Resolved r) s) =
           ''The AI didn't return an image. Try a different prompt.'' \<and>
         baseImages (handleSubmit b now (Resolved r) s) = baseImages s \<and>
         baseImagePreviews (handleSubmit b now (Resolved r) s) = baseImagePreviews s \<and>
         prompt (handleSubmit b now (Resolved r) s) = prompt s \<and>
         seed (handleSubmit b now (Resolved r) s) = seed s \<and>
         aspectRatio (handleSubmit b now (Resolved r) s) = aspectRatio s \<and>
         blobStore (handleSubmit b now (Resolved r) s) = blobStore s \<and>
         history (handleSubmit b now (Resolved r) s) = history s"
proof -
  from assms(3) have "firstInlineData (responseParts r) = None"
    by (rule firstInlineData_none)
  with assms(1,2) show ?thesis by (simp add: handleSubmit_no_image)
qed

theorem submit_without_image_witness:
  "baseImages sunsetDraft = [photo] \<and>
   prompt sunsetDraft = ''sunset'' \<and>
   error (handleSubmit IndexTsx 1700 (Resolved textOnly) sunsetDraft) =
     ''The AI didn't return an image. Try a different prompt.'' \<and>
   baseImages (handleSubmit IndexTsx 1700 (Resolved textOnly) sunsetDraft) = [photo] \<and>
   prompt (handleSubmit IndexTsx 1700 (Resolved textOnly) sunsetDraft) = ''sunset'' \<and>
   history (handleSubmit IndexTsx 1700 (Resolved textOnly) sunsetDraft) = []"
proof -
  have draft: "baseImages sunsetDraft = [photo]" "prompt sunsetDraft = ''sunset''"
    "history sunsetDraft = []"
    by code_simp+
  have valid: "baseImages sunsetDraft \<noteq> []" "prompt sunsetDraft \<noteq> ''''"
    by (simp_all add: draft)
  have answer: "\<forall>part \<in> set (responseParts textOnly). inlineData part = None"
    by code_simp
  show ?thesis
    using submit_without_image [where b = IndexTsx and now = 1700, OF valid answer] draft
    by simp
qed

text \<open>
  \<^bold>\<open>C5.\<close> After every sequence of \<open>processFiles\<close> calls, from any state the page can
  reach, there are at most three base images. A further call with the batch \<open>fs\<close> keeps
  the images already there, in order, and appends the first images of \<open>fs\<close>, as many as
  fit under three. When none fits (the batch is empty, or three images are there) the
  call changes nothing, as does a call without a file list; when one fits, the call
  empties the generated image and the error message.
\<close>

theorem processFiles_cap:
  fixes b :: Build and s0 :: App and calls :: "File list option list" and fs :: "File list"
  defines "s \<equiv> foldl (\<lambda>s files. processFiles files s) s0 calls"
  defines "accepted \<equiv> take (3 - length (baseImages s)) fs"
  assumes "reachable b s0"
  shows "length (baseImages s) \<le> 3 \<and>
         baseImages (processFiles (Some fs) s) = baseImages s @ accepted \<and>
         length (baseImages (processFiles (Some fs) s)) \<le> 3 \<and>
         (accepted = [] \<longrightarrow> processFiles (Some fs) s = s) \<and>
         (length (baseImages s) = 3 \<longrightarrow> processFiles (Some fs) s = s) \<and>
         (accepted \<noteq> [] \<longrightarrow>
            generatedImage (processFiles (Some fs) s) = '''' \<and>
            error (processFiles (Some fs) s) = '''') \<and>
         processFiles None s = s"
proof -
  have "reachable b s" unfolding s_def using assms(3) by (rule reachable_processFiles_calls)
  then have "sessionInvariant s" by (rule reachable_invariant)
  then have le: "length (baseImages s) \<le> 3" by (simp add: sessionInvariant_def)
  note step = processFiles_Some [OF le, of fs]
  have "baseImages (processFiles (Some fs) s) = baseImages s @ accepted"
    unfolding step accepted_def by simp
  moreover have "length (baseImages s @ accepted) \<le> 3"
    using le by (simp add: accepted_def)
  moreover have "accepted = [] \<longrightarrow> processFiles (Some fs) s = s"
    unfolding step accepted_def by simp
  moreover have "length (baseImages s) = 3 \<longrightarrow> processFiles (Some fs) s = s"
    unfolding step by simp
  moreover have "accepted \<noteq> [] \<longrightarrow>
      generatedImage (processFiles (Some fs) s) = '''' \<and> error (processFiles (Some fs) s) = ''''"
    unfolding step accepted_def by simp
  ultimately show ?thesis using le by (simp add: processFiles_None)
qed

theorem processFiles_cap_witness:
  "baseImages (foldl (\<lambda>s files. processFiles files s) initial [Some [photo, sketch], None]) =
     [photo, sketch] \<and>
   baseImages (processFiles (Some [sketch, photo])
      (foldl (\<lambda>s files. processFiles files s) initial [Some [photo, sketch], None])) =
     [photo, sketch, sketch] \<and>
   processFiles (Some [photo])
      (foldl (\<lambda>s files. processFiles files s) initial
         [Some [photo, sketch], None, Some [sketch, photo]]) =
     foldl (\<lambda>s files. processFiles files s) initial
       [Some [photo, sketch], None, Some [sketch, photo]]"
proof -
  have two: "baseImages (foldl (\<lambda>s files. processFiles files s) initial
      [Some [photo, sketch], None]) = [photo, sketch]"
    by code_simp
  have three: "length (baseImages (foldl (\<lambda>s files. processFiles files s) initial
      [Some [photo, sketch], None, Some [sketch, photo]])) = 3"
    by code_simp
  show ?thesis
    using processFiles_cap [where b = IndexTsx and calls = "[Some [photo, sketch], None]"
        and fs = "[sketch, photo]", OF reachable.start]
      processFiles_cap [where b = IndexTsx
        and calls = "[Some [photo, sketch], None, Some [sketch, photo]]"
        and fs = "[photo]", OF reachable.start]
      two three
    by simp
qed



text \<open>
  \<^bold>\<open>C7.\<close> As stated, the claim fails: when the awaited call rejects with a value that is
  not an instance of \<open>Error\<close>, a thrown string say, the message does not hold the text of
  that value.
\<close>

theorem rejection_text_counterexample:
  "baseImages castleDraft \<noteq> [] \<and>
   prompt castleDraft \<noteq> '''' \<and>
   error (handleSubmit IndexTsx 1700 (Rejected (NonError ''quota exceeded'')) castleDraft) =
     ''Error: An unexpected error occurred.. Please check the console for more details.'' \<and>
   \<not> sublist ''quota exceeded''
     (error (handleSubmit IndexTsx 1700 (Rejected (NonError ''quota exceeded'')) castleDraft))"
  by code_simp

text \<open>
  \<^bold>\<open>C7, amended.\<close> For every submit of a valid draft during which the awaited call
  rejects: when the rejection is an \<open>Error\<close> with message \<open>t\<close>, the error message is
  exactly \<open>Error: t. Please check the console for more details.\<close>, which contains
  \<open>t\<close>; when it is any other value, the error message is exactly \<open>Error: An unexpected
  error occurred.. Please check the console for more details.\<close>, whatever the value. In
  both cases the draft (base images, previews and their object URLs, prompt, seed, aspect
  ratio) and the history are as before the call, and the handler ends with no request
  outstanding. A throw before the call of the service ends in the same state, but for
  the request, which is not sent.
\<close>

theorem submit_rejected:
  assumes "baseImages s \<noteq> []" and "prompt s \<noteq> ''''"
  shows "error (handleSubmit b now (Rejected (ErrorObject t)) s) =
           ''Error: '' @ t @ ''. Please check the console for more details.'' \<and>
         sublist t (error (handleSubmit b now (Rejected (ErrorObject t)) s)) \<and>
         error (handleSubmit b now (Rejected (NonError v)) s) =
           ''Error: An unexpected error occurred.. Please check the console for more details.'' \<and>
         baseImages (handleSubmit b now (Rejected err) s) = baseImages s \<and>
         baseImagePreviews (handleSubmit b now (Rejected err) s) = baseImagePreviews s \<and>
         prompt (handleSubmit b now (Rejected err) s) = prompt s \<and>
         seed (handleSubmit b now (Rejected err) s) = seed s \<and>
         aspectRatio (handleSubmit b now (Rejected err) s) = aspectRatio s \<and>
         blobStore (handleSubmit b now (Rejected err) s) = blobStore s \<and>
         history (handleSubmit b now (Rejected err) s) = history s \<and>
         \<not> isLoading (handleSubmit b now (Rejected err) s) \<and>
         handleSubmit b now (ThrewBeforeCall err) s =
           (handleSubmit b now (Rejected err) s)\<lparr>sent := sent s\<rparr>"
proof -
  have "sublist t (''Error: '' @ t @ ''. Please check the console for more details.'')"
    by (rule sublist_appendI)
  with assms show ?thesis
    by (simp add: handleSubmit_rejected handleSubmit_threw errorMessage_def)
qed

theorem submit_rejected_witness:
  "error (handleSubmit IndexTsx 1700 (Rejected (ErrorObject ''quota exceeded'')) castleDraft) =
     ''Error: quota exceeded. Please check the console for more details.'' \<and>
   error (handleSubmit IndexTsx 1700 (Rejected (NonError ''quota exceeded'')) castleDraft) =
     ''Error: An unexpected error occurred.. Please check the console for more details.'' \<and>
   baseImages (handleSubmit IndexTsx 1700 (Rejected (ErrorObject ''quota exceeded'')) castleDraft) =
     [photo, sketch] \<and>
   prompt (handleSubmit IndexTsx 1700 (Rejected (ErrorObject ''quota exceeded'')) castleDraft) =
     ''add a castle'' \<and>
   history (handleSubmit IndexTsx 1700 (Rejected (ErrorObject ''quota exceeded'')) castleDraft) = [] \<and>
   error (handleSubmit IndexTsx 1700 (ThrewBeforeCall (ErrorObject ''quota exceeded'')) castleDraft) =
     ''Error: quota exceeded. Please check the console for more details.'' \<and>
   sent (handleSubmit IndexTsx 1700 (ThrewBeforeCall (ErrorObject ''quota exceeded'')) castleDraft) =
     []"
proof -
  have draft: "baseImages castleDraft = [photo, sketch]" "prompt castleDraft = ''add a castle''"
    "history castleDraft = []" "sent castleDraft = []"
    by code_simp+
  have valid: "baseImages castleDraft \<noteq> []" "prompt castleDraft \<noteq> ''''"
    by (simp_all add: draft)
  show ?thesis
    using submit_rejected [where b = IndexTsx and now = 1700 and t = "''quota exceeded''"
        and v = "''quota exceeded''" and err = "ErrorObject ''quota exceeded''", OF valid] draft
    by simp
qed

text \<open>
  \<^bold>\<open>C8.\<close> In the aspect-ratio build, for every submit of a valid draft with the ratio
  \<open>r\<close> selected, \<open>1:1\<close>, \<open>16:9\<close> or \<open>9:16\<close>: when the service is called, with
  whatever answer or rejection, the one request sent holds the base images and one text
  part, and nothing else names the ratio; the text is the user's prompt, then a blank
  line and \<open>**IMPORTANT**:\<close>, then the sentence ``The output image must have a strict
  aspect ratio of exactly \<open>r\<close>.'', then `` This is a critical requirement.''. When
  something throws before the call, nothing is sent. When the answer has an image, the
  new history item's aspect ratio is \<open>r\<close> and the draft's aspect ratio is \<open>1:1\<close> again.
\<close>

theorem aspect_ratio_in_prompt:
  fixes s :: App and now answer err r d
  defines "ratio \<equiv>
      (case aspectRatio s of R_1_1 \<Rightarrow> ''1:1'' | R_16_9 \<Rightarrow> ''16:9'' | R_9_16 \<Rightarrow> ''9:16'')"
  defines "request \<equiv>
      \<lparr> model = ''gemini-2.5-flash-image-preview'',
        contents =
          map fileToGenerativePart (baseImages s) @
          [\<lparr> inlineData = None,
             partText = Some (prompt s @ [CHR 0x0A, CHR 0x0A] @ ''**IMPORTANT**: '' @
               ''The output image must have a strict aspect ratio of exactly '' @
               ratio @ ''.'' @ '' This is a critical requirement.'') \<rparr>],
        responseModalities = [IMAGE, TEXT] \<rparr>"
  assumes "baseImages s \<noteq> []" and "prompt s \<noteq> ''''"
    and "firstInlineData (responseParts r) = Some d"
  shows "sent (handleSubmit AspectRatioBuild now (Resolved answer) s) = sent s @ [request] \<and>
         sent (handleSubmit AspectRatioBuild now (Rejected err) s) = sent s @ [request] \<and>
         sent (handleSubmit AspectRatioBuild now (ThrewBeforeCall err) s) = sent s \<and>
         item_aspectRatio (history (handleSubmit AspectRatioBuild now (Resolved r) s) ! 0) =
           Some (aspectRatio s) \<and>
         aspectRatio (handleSubmit AspectRatioBuild now (Resolved r) s) = R_1_1"
proof -
  have shown: "aspectRatioText (aspectRatio s) = ratio"
    unfolding ratio_def by (cases "aspectRatio s") simp_all
  have req: "generateContentRequest AspectRatioBuild s = request"
    by (simp add: generateContentRequest_def finalPrompt_def request_def shown)
  have "sent (handleSubmit AspectRatioBuild now (Resolved answer) s) = sent s @ [request]"
    using sent_handleSubmit [OF assms(3,4), of AspectRatioBuild now "Resolved answer"]
    by (simp add: req)
  moreover have "sent (handleSubmit AspectRatioBuild now (Rejected err) s) = sent s @ [request]"
    using sent_handleSubmit [OF assms(3,4), of AspectRatioBuild now "Rejected err"]
    by (simp add: req)
  moreover have "sent (handleSubmit AspectRatioBuild now (ThrewBeforeCall err) s) = sent s"
    using sent_handleSubmit [OF assms(3,4), of AspectRatioBuild now "ThrewBeforeCall err"]
    by simp
  moreover have "item_aspectRatio (history (handleSubmit AspectRatioBuild now (Resolved r) s) ! 0) =
      Some (aspectRatio s)"
    using assms(3,4,5) by (simp add: handleSubmit_image newHistoryItem_def)
  moreover have "aspectRatio (handleSubmit AspectRatioBuild now (Resolved r) s) = R_1_1"
    using assms(3,4,5) by (simp add: handleSubmit_image)
  ultimately show ?thesis by simp
qed

theorem aspect_ratio_in_prompt_witness:
  "aspectRatio wideDraft = R_16_9 \<and>
   aspectRatio tallDraft = R_9_16 \<and>
   aspectRatio squareDraft = R_1_1 \<and>
   map (\<lambda>q. partText (last (contents q)))
     (sent (handleSubmit AspectRatioBuild 1700 (Resolved pngAnswer) wideDraft)) =
     [Some (''sunset'' @ [CHR 0x0A, CHR 0x0A] @
        ''**IMPORTANT**: The output image must have a strict aspect ratio of exactly 16:9. This is a critical requirement.'')] \<and>
   map (\<lambda>q. partText (last (contents q)))
     (sent (handleSubmit AspectRatioBuild 1700 (Resolved textOnly) tallDraft)) =
     [Some (''sunset'' @ [CHR 0x0A, CHR 0x0A] @
        ''**IMPORTANT**: The output image must have a strict aspect ratio of exactly 9:16. This is a critical requirement.'')] \<and>
   map (\<lambda>q. partText (last (contents q)))
     (sent (handleSubmit AspectRatioBuild 1700 (Rejected (ErrorObject ''offline'')) squareDraft)) =
     [Some (''sunset'' @ [CHR 0x0A, CHR 0x0A] @
        ''**IMPORTANT**: The output image must have a strict aspect ratio of exactly 1:1. This is a critical requirement.'')] \<and>
   sent (handleSubmit AspectRatioBuild 1700 (ThrewBeforeCall (ErrorObject ''no API key'')) wideDraft) =
     [] \<and>
   item_aspectRatio (history (handleSubmit AspectRatioBuild 1700 (Resolved pngAnswer) wideDraft) ! 0) =
     Some R_16_9 \<and>
   item_aspectRatio (history (handleSubmit AspectRatioBuild 1700 (Resolved pngAnswer) tallDraft) ! 0) =
     Some R_9_16 \<and>
   aspectRatio (handleSubmit AspectRatioBuild 1700 (Resolved pngAnswer) tallDraft) = R_1_1"
proof -
  have wide: "baseImages wideDraft = [photo]" "prompt wideDraft = ''sunset''"
    "aspectRatio wideDraft = R_16_9" "sent wideDraft = []"
    by code_simp+
  have tall: "baseImages tallDraft = [photo]" "prompt tallDraft = ''sunset''"
    "aspectRatio tallDraft = R_9_16" "sent tallDraft = []"
    by code_simp+
  have square: "baseImages squareDraft = [photo]" "prompt squareDraft = ''sunset''"
    "aspectRatio squareDraft = R_1_1" "sent squareDraft = []"
    by code_simp+
  have valid: "baseImages wideDraft \<noteq> []" "prompt wideDraft \<noteq> ''''"
    "baseImages tallDraft \<noteq> []" "prompt tallDraft \<noteq> ''''"
    "baseImages squareDraft \<noteq> []" "prompt squareDraft \<noteq> ''''"
    by (simp_all add: wide tall square)
  have image: "firstInlineData (responseParts pngAnswer) =
      Some \<lparr> inlineBytes = ''X'', inlineMimeType = ''image/png'' \<rparr>"
    by code_simp
  show ?thesis
    using aspect_ratio_in_prompt [where now = 1700 and answer = pngAnswer
        and err = "ErrorObject ''no API key''", OF valid(1,2) image]
      aspect_ratio_in_prompt [where now = 1700 and answer = textOnly
        and err = "ErrorObject ''offline''", OF valid(3,4) image]
      aspect_ratio_in_prompt [where now = 1700 and answer = textOnly
        and err = "ErrorObject ''offline''", OF valid(5,6) image]
      wide tall square
    by simp
qed

text \<open>
  \<^bold>\<open>C9.\<close> In every state the page can reach: for an index \<open>i\<close> inside the base
  images, \<open>handleRemoveImage i\<close> removes the image and the preview at position \<open>i\<close> and
  keeps the others in their order; it revokes that preview's URL and no other, so that
  the removed preview is not among the previews left and every preview left that was in
  the blob URL store is still there; nothing else changes. For an index outside, the
  state is unchanged.
\<close>

theorem removeImage_releases_one:
  fixes s :: App and b :: Build and i :: int
  defines "s' \<equiv> handleRemoveImage i s"
    and "removed \<equiv> baseImagePreviews s ! nat i"
  assumes "reachable b s"
  shows "(0 \<le> i \<and> i < int (length (baseImages s)) \<longrightarrow>
            baseImages s' = take (nat i) (baseImages s) @ drop (Suc (nat i)) (baseImages s) \<and>
            baseImagePreviews s' =
              take (nat i) (baseImagePreviews s) @ drop (Suc (nat i)) (baseImagePreviews s) \<and>
            blobStore s' = removeAll removed (blobStore s) \<and>
            removed \<notin> set (baseImagePreviews s') \<and>
            (\<forall>p \<in> set (baseImagePreviews s'). p \<in> set (blobStore s) \<longrightarrow> p \<in> set (blobStore s')) \<and>
            s' = s\<lparr>baseImages := baseImages s', baseImagePreviews := baseImagePreviews s',
                   blobStore := blobStore s'\<rparr>) \<and>
         (i < 0 \<or> int (length (baseImages s)) \<le> i \<longrightarrow> s' = s)"
proof -
  from assms(3) have inv: "sessionInvariant s" by (rule reachable_invariant)
  then have eq: "length (baseImages s) = length (baseImagePreviews s)"
    and dist: "distinct (baseImagePreviews s)"
    and store: "set (blobStore s) = {p \<in> set (baseImagePreviews s). isBlobUrl p}"
    by (simp_all add: sessionInvariant_def)
  have outside: "s' = s" if "i < 0 \<or> int (length (baseImages s)) \<le> i"
    unfolding s'_def using that eq by (intro handleRemoveImage_outside) simp_all
  have inside:
    "baseImages s' = take (nat i) (baseImages s) @ drop (Suc (nat i)) (baseImages s) \<and>
     baseImagePreviews s' =
       take (nat i) (baseImagePreviews s) @ drop (Suc (nat i)) (baseImagePreviews s) \<and>
     blobStore s' = removeAll removed (blobStore s) \<and>
     removed \<notin> set (baseImagePreviews s') \<and>
     (\<forall>p \<in> set (baseImagePreviews s'). p \<in> set (blobStore s) \<longrightarrow> p \<in> set (blobStore s')) \<and>
     s' = s\<lparr>baseImages := baseImages s', baseImagePreviews := baseImagePreviews s',
            blobStore := blobStore s'\<rparr>"
    if range: "0 \<le> i \<and> i < int (length (baseImages s))"
  proof -
    from range eq have n: "nat i < length (baseImagePreviews s)" by linarith
    have st: "s' =
       (revokeObjectURL removed s)
         \<lparr>baseImages := take (nat i) (baseImages s) @ drop (Suc (nat i)) (baseImages s),
          baseImagePreviews :=
            take (nat i) (baseImagePreviews s) @ drop (Suc (nat i)) (baseImagePreviews s)\<rparr>"
      unfolding s'_def removed_def using range eq by (intro handleRemoveImage_inside) simp_all
    have rest: "set (take (nat i) (baseImagePreviews s) @ drop (Suc (nat i)) (baseImagePreviews s)) =
        set (baseImagePreviews s) - {removed}"
      unfolding removed_def using dist n by (rule set_without_nth)
    have notblob: "removeAll removed (blobStore s) = blobStore s" if "\<not> isBlobUrl removed"
      using that store by (intro removeAll_id) auto
    have f1: "baseImages s' = take (nat i) (baseImages s) @ drop (Suc (nat i)) (baseImages s)"
      and f2: "baseImagePreviews s' =
        take (nat i) (baseImagePreviews s) @ drop (Suc (nat i)) (baseImagePreviews s)"
      by (simp_all add: st revokeObjectURL_def)
    have f3: "blobStore s' = removeAll removed (blobStore s)"
      using notblob by (simp add: st revokeObjectURL_def)
    have f4: "s' = s\<lparr>baseImages := baseImages s', baseImagePreviews := baseImagePreviews s',
            blobStore := blobStore s'\<rparr>"
      by (simp add: st revokeObjectURL_def)
    have f5: "removed \<notin> set (baseImagePreviews s')"
      unfolding f2 rest by simp
    have f6: "\<forall>p \<in> set (baseImagePreviews s'). p \<in> set (blobStore s) \<longrightarrow> p \<in> set (blobStore s')"
      unfolding f2 f3 rest by simp
    from f1 f2 f3 f4 f5 f6 show ?thesis by blast
  qed
  from inside outside show ?thesis by blast
qed

theorem removeImage_releases_one_witness:
  "baseImagePreviews threeImages = [''blob:0'', ''blob:1'', ''blob:2''] \<and>
   blobStore threeImages = [''blob:0'', ''blob:1'', ''blob:2''] \<and>
   baseImages (handleRemoveImage 1 threeImages) = [photo, photo] \<and>
   baseImagePreviews (handleRemoveImage 1 threeImages) = [''blob:0'', ''blob:2''] \<and>
   blobStore (handleRemoveImage 1 threeImages) = [''blob:0'', ''blob:2''] \<and>
   handleRemoveImage 3 threeImages = threeImages \<and>
   handleRemoveImage (- 1) threeImages = threeImages"
proof -
  have reach: "reachable IndexTsx threeImages"
    unfolding threeImages_def by (rule reachable_run [OF reachable.start])
  have before: "baseImages threeImages = [photo, sketch, photo]"
    "baseImagePreviews threeImages = [''blob:0'', ''blob:1'', ''blob:2'']"
    "blobStore threeImages = [''blob:0'', ''blob:1'', ''blob:2'']"
    by code_simp+
  show ?thesis
    using removeImage_releases_one [OF reach, of 1]
      removeImage_releases_one [OF reach, of 3]
      removeImage_releases_one [OF reach, of "- 1"]
      before
    by simp
qed

text \<open>
  \<^bold>\<open>C10.\<close> A submit that passes validation empties the generated image before the
  request goes out: in the state at the call of the service the generated image is empty,
  whatever it was, and it is still empty after a rejected call and after an answer
  without an image, while the draft is as it was. The same holds on entering the
  \<open>try\<close> block and after a throw before the call.
\<close>

theorem submit_drops_generated_image:
  assumes "baseImages s \<noteq> []" and "prompt s \<noteq> ''''"
    and "\<forall>part \<in> set (responseParts r). inlineData part = None"
  shows "generatedImage (submitting b s) = '''' \<and>
         sent (submitting b s) = sent s @ [generateContentRequest b s] \<and>
         generatedImage (handleSubmit b now (Rejected err) s) = '''' \<and>
         generatedImage (handleSubmit b now (Resolved r) s) = '''' \<and>
         baseImages (handleSubmit b now (Rejected err) s) = baseImages s \<and>
         baseImages (handleSubmit b now (Resolved r) s) = baseImages s \<and>
         prompt (handleSubmit b now (Rejected err) s) = prompt s \<and>
         prompt (handleSubmit b now (Resolved r) s) = prompt s \<and>
         generatedImage (loading s) = '''' \<and>
         sent (loading s) = sent s \<and>
         generatedImage (handleSubmit b now (ThrewBeforeCall err) s) = '''' \<and>
         baseImages (handleSubmit b now (ThrewBeforeCall err) s) = baseImages s \<and>
         prompt (handleSubmit b now (ThrewBeforeCall err) s) = prompt s"
proof -
  from assms(3) have "firstInlineData (responseParts r) = None"
    by (rule firstInlineData_none)
  with assms(1,2) show ?thesis
    by (simp add: handleSubmit_no_image handleSubmit_rejected handleSubmit_threw
          submitting_def loading_def)
qed

theorem submit_drops_generated_image_witness:
  "generatedImage (sunsetDraft\<lparr>generatedImage := ''data:image/png;base64,OLD''\<rparr>) =
     ''data:image/png;base64,OLD'' \<and>
   generatedImage (handleSubmit IndexTsx 1700 (Rejected (ErrorObject ''offline''))
      (sunsetDraft\<lparr>generatedImage := ''data:image/png;base64,OLD''\<rparr>)) = '''' \<and>
   generatedImage (handleSubmit IndexTsx 1700 (Resolved textOnly)
      (sunsetDraft\<lparr>generatedImage := ''data:image/png;base64,OLD''\<rparr>)) = '''' \<and>
   prompt (handleSubmit IndexTsx 1700 (Resolved textOnly)
      (sunsetDraft\<lparr>generatedImage := ''data:image/png;base64,OLD''\<rparr>)) = ''sunset''"
proof -
  have draft: "baseImages sunsetDraft = [photo]" "prompt sunsetDraft = ''sunset''"
    by code_simp+
  have valid: "baseImages (sunsetDraft\<lparr>generatedImage := ''data:image/png;base64,OLD''\<rparr>) \<noteq> []"
    "prompt (sunsetDraft\<lparr>generatedImage := ''data:image/png;base64,OLD''\<rparr>) \<noteq> ''''"
    by (simp_all add: draft)
  have answer: "\<forall>part \<in> set (responseParts textOnly). inlineData part = None"
    by code_simp
  show ?thesis
    using submit_drops_generated_image [where b = IndexTsx and now = 1700
        and err = "ErrorObject ''offline''", OF valid answer] draft
    by simp
qed

end
